theory Spec2Isabelle
  imports Complex_Main "HOL-Library.AList"
begin

section \<open>JavaScript values and objects\<close>

text \<open>
  A number is a finite value, one of the two infinities, or \<open>NaN\<close>. Finite values are
  real numbers: rounding to 64 bits is not modelled.
\<close>

datatype jsnum = Fin real | PosInf | NegInf | NaN

text \<open>
  A value is a primitive or a reference to an object of the heap. Functions are not values
  of the model: the evaluator \<open>matchMedia\<close> and the option \<open>extraFields\<close> are HOL functions.
\<close>

datatype jsval =
    Undefined
  | Null
  | Bool bool
  | Number jsnum
  | String string
  | Ref nat

fun typeof :: "jsval \<Rightarrow> string" where
  "typeof Undefined = ''undefined''"
| "typeof Null = ''object''"
| "typeof (Bool b) = ''boolean''"
| "typeof (Number n) = ''number''"
| "typeof (String s) = ''string''"
| "typeof (Ref r) = ''object''"

fun truthy :: "jsval \<Rightarrow> bool" where
  "truthy Undefined = False"
| "truthy Null = False"
| "truthy (Bool b) = b"
| "truthy (Number n) = (n \<noteq> Fin 0 \<and> n \<noteq> NaN)"
| "truthy (String s) = (s \<noteq> [])"
| "truthy (Ref r) = True"

subsection \<open>Objects\<close>

text \<open>
  An object is the list of its own enumerable properties in enumeration order: the names
  that are array indices first, in ascending order, then the other names in the order of
  their creation. Names are distinct.
\<close>

type_synonym obj = "(string \<times> jsval) list"

definition get :: "obj \<Rightarrow> string \<Rightarrow> jsval" where
  "get ob k = (case map_of ob k of None \<Rightarrow> Undefined | Some v \<Rightarrow> v)"

text \<open>
  An array index is the canonical decimal form of an integer from 0 to \<open>2^32 - 2\<close>.
\<close>

definition is_digit :: "char \<Rightarrow> bool" where
  "is_digit c = (48 \<le> (of_char c :: nat) \<and> (of_char c :: nat) \<le> 57)"

definition digits_value :: "string \<Rightarrow> int" where
  "digits_value s = foldl (\<lambda>a d. 10 * a + (of_char d - 48)) 0 s"

definition array_index :: "string \<Rightarrow> int option" where
  "array_index s =
     (case s of
        [] \<Rightarrow> None
      | d # ds \<Rightarrow>
          if \<not> list_all is_digit s \<or> (d = CHR ''0'' \<and> ds \<noteq> [])
             \<or> \<not> digits_value s < 4294967295
          then None
          else Some (digits_value s))"

text \<open>
  A new property whose name is the array index \<open>i\<close> goes before the first property whose
  name is not an array index or is a greater one.
\<close>

fun insert_index :: "int \<Rightarrow> string \<Rightarrow> 'v \<Rightarrow> (string \<times> 'v) list \<Rightarrow> (string \<times> 'v) list" where
  "insert_index i k v [] = [(k, v)]"
| "insert_index i k v (p # ob) =
     (case array_index (fst p) of
        Some j \<Rightarrow> if j < i then p # insert_index i k v ob else (k, v) # p # ob
      | None \<Rightarrow> (k, v) # p # ob)"

text \<open>
  The assignment \<open>ob[k] = v\<close>: a property that exists is overwritten where it is; a new one
  goes to its place in the enumeration order, which is the end unless its name is an array
  index.
\<close>

definition assign :: "string \<Rightarrow> 'v \<Rightarrow> (string \<times> 'v) list \<Rightarrow> (string \<times> 'v) list" where
  "assign k v ob =
     (if k \<in> fst ` set ob then AList.update k v ob
      else (case array_index k of
              Some i \<Rightarrow> insert_index i k v ob
            | None \<Rightarrow> ob @ [(k, v)]))"

subsection \<open>The relational operators\<close>

fun num_less :: "jsnum \<Rightarrow> jsnum \<Rightarrow> bool" where
  "num_less NaN y = False"
| "num_less x NaN = False"
| "num_less (Fin x) (Fin y) = (x < y)"
| "num_less (Fin x) PosInf = True"
| "num_less (Fin x) NegInf = False"
| "num_less PosInf y = False"
| "num_less NegInf NegInf = False"
| "num_less NegInf y = True"

text \<open>\<open>x >= y\<close> on numbers: false when a side is \<open>NaN\<close>, else the negation of \<open>x < y\<close>.\<close>

definition num_ge :: "jsnum \<Rightarrow> jsnum \<Rightarrow> bool" where
  "num_ge x y = (x \<noteq> NaN \<and> y \<noteq> NaN \<and> \<not> num_less x y)"

text \<open>Strings compare by code units, the shorter of two that agree being the smaller.\<close>

fun str_less :: "string \<Rightarrow> string \<Rightarrow> bool" where
  "str_less [] [] = False"
| "str_less [] (y # ys) = True"
| "str_less (x # xs) [] = False"
| "str_less (x # xs) (y # ys) =
     (if (of_char x :: nat) < of_char y then True
      else if (of_char y :: nat) < of_char x then False
      else str_less xs ys)"

text \<open>
  The conversions of the language that the operator \<open>>=\<close> relies on and that this module
  does not define: the number a string converts to, and the primitive an object converts to
  when a number is preferred, which is a string (\<open>Inl\<close>) or a primitive that is not a
  string, given by the number it converts to (\<open>Inr\<close>). Everything proved below holds
  whatever these two functions are.
\<close>

record conversions =
  StringToNumber :: "string \<Rightarrow> jsnum"
  ToPrimitive :: "nat \<Rightarrow> string + jsnum"

text \<open>An operand of \<open>>=\<close> once converted to a primitive: a string, or the number it is worth.\<close>

fun operand :: "conversions \<Rightarrow> jsval \<Rightarrow> string + jsnum" where
  "operand c Undefined = Inr NaN"
| "operand c Null = Inr (Fin 0)"
| "operand c (Bool b) = Inr (Fin (if b then 1 else 0))"
| "operand c (Number n) = Inr n"
| "operand c (String s) = Inl s"
| "operand c (Ref r) = ToPrimitive c r"

text \<open>
  \<open>a >= b\<close>. Two strings compare as strings; otherwise both sides are converted to
  numbers.
\<close>

definition js_ge :: "conversions \<Rightarrow> jsval \<Rightarrow> jsval \<Rightarrow> bool" where
  "js_ge c a b =
     (case (operand c a, operand c b) of
        (Inl s, Inl t) \<Rightarrow> \<not> str_less s t
      | (Inl s, Inr y) \<Rightarrow> num_ge (StringToNumber c s) y
      | (Inr x, Inl t) \<Rightarrow> num_ge x (StringToNumber c t)
      | (Inr x, Inr y) \<Rightarrow> num_ge x y)"

subsection \<open>Library functions\<close>

text \<open>
  \<open>Array.prototype.sort\<close> with a comparator, as a stable insertion sort: the elements are
  taken from left to right, and each is put before the first element of the sorted prefix
  that the comparator orders it before (a negative result). Every sort gives this result
  when the comparator is consistent.
\<close>

fun insert_by :: "('a \<Rightarrow> 'a \<Rightarrow> int) \<Rightarrow> 'a \<Rightarrow> 'a list \<Rightarrow> 'a list" where
  "insert_by cmp x [] = [x]"
| "insert_by cmp x (y # ys) = (if cmp x y < 0 then x # y # ys else y # insert_by cmp x ys)"

fun sort_into :: "('a \<Rightarrow> 'a \<Rightarrow> int) \<Rightarrow> 'a list \<Rightarrow> 'a list \<Rightarrow> 'a list" where
  "sort_into cmp acc [] = acc"
| "sort_into cmp acc (x # xs) = sort_into cmp (insert_by cmp x acc) xs"

definition Array_sort :: "('a \<Rightarrow> 'a \<Rightarrow> int) \<Rightarrow> 'a list \<Rightarrow> 'a list" where
  "Array_sort cmp xs = sort_into cmp [] xs"

text \<open>\<open>Array.prototype.indexOf\<close>: the first position of the element, \<open>None\<close> for \<open>-1\<close>.\<close>

fun indexOf :: "'a list \<Rightarrow> 'a \<Rightarrow> nat option" where
  "indexOf [] k = None"
| "indexOf (x # xs) k =
     (if x = k then Some 0 else (case indexOf xs k of None \<Rightarrow> None | Some i \<Rightarrow> Some (Suc i)))"

text \<open>
  lodash's \<open>transform\<close> of an object with a callback that never returns \<open>false\<close>: the
  callback sees a fresh empty object and every own property in enumeration order.
  lodash's \<open>reduce\<close> with an initial accumulator is the same left fold.
\<close>

definition transform :: "('r list \<Rightarrow> string \<times> 'v \<Rightarrow> 'r list) \<Rightarrow> (string \<times> 'v) list \<Rightarrow> 'r list" where
  "transform f ob = foldl f [] ob"

definition reduce :: "(string \<times> 'v) list \<Rightarrow> ('r \<Rightarrow> string \<times> 'v \<Rightarrow> 'r) \<Rightarrow> 'r \<Rightarrow> 'r" where
  "reduce ob f acc = foldl f acc ob"

section \<open>The order map\<close>

text \<open>The comparator of \<open>getOrderMap\<close>, on two property names of \<open>bps\<close>.\<close>

definition comparator :: "conversions \<Rightarrow> obj \<Rightarrow> string \<Rightarrow> string \<Rightarrow> int" where
  "comparator c bps a b =
     (let valueA = get bps a; valueB = get bps b in
      if typeof valueA = ''number'' \<and> typeof valueB = ''string'' then - 1
      else if typeof valueB = ''number'' \<and> typeof valueA = ''string'' then 1
      else if js_ge c valueA valueB then 1 else - 1)"

text \<open>An order map holds indices of the sorted key array: its values are numbers.\<close>

type_synonym order_map = "(string \<times> nat) list"

definition getOrderMap :: "conversions \<Rightarrow> obj \<Rightarrow> order_map" where
  "getOrderMap c bps =
     (let keys = Array_sort (comparator c bps) (map fst bps) in
      transform
        (\<lambda>result (mediaType, breakpoint).
           case indexOf keys mediaType of
             Some index \<Rightarrow> assign mediaType index result
           | None \<Rightarrow> result)
        bps)"

text \<open>The width of a breakpoint: its value when that is a number, else \<open>NaN\<close>.\<close>

definition width :: "obj \<Rightarrow> string \<Rightarrow> jsnum" where
  "width bps k = (case get bps k of Number x \<Rightarrow> x | _ \<Rightarrow> NaN)"

section \<open>The comparison maps\<close>

text \<open>A rank read as the JavaScript number it is.\<close>

definition rank_value :: "nat \<Rightarrow> jsval" where
  "rank_value i = Number (Fin (real i))"

text \<open>\<open>breakpointOrder[k]\<close>: the rank, or \<open>undefined\<close>.\<close>

definition rank_of :: "order_map \<Rightarrow> string \<Rightarrow> jsval" where
  "rank_of breakpointOrder k =
     (case map_of breakpointOrder k of None \<Rightarrow> Undefined | Some i \<Rightarrow> rank_value i)"

text \<open>
  \<open><\<close> and \<open>>\<close> where each side is a rank or \<open>undefined\<close>: false when a side is
  \<open>undefined\<close>. Other operands do not occur.
\<close>

fun rank_less :: "jsval \<Rightarrow> jsval \<Rightarrow> bool" where
  "rank_less (Number x) (Number y) = num_less x y"
| "rank_less a b = False"

definition getLessThan :: "string \<Rightarrow> order_map \<Rightarrow> obj" where
  "getLessThan currentMediaType breakpointOrder =
     (let currentOrder = rank_of breakpointOrder currentMediaType in
      transform
        (\<lambda>result (mediaType, breakpoint).
           if typeof (rank_value breakpoint) = ''number''
              \<and> truthy (rank_of breakpointOrder mediaType)
           then assign mediaType
                  (Bool (rank_less currentOrder (rank_of breakpointOrder mediaType))) result
           else assign mediaType (Bool False) result)
        breakpointOrder)"

definition getIs :: "string \<Rightarrow> obj \<Rightarrow> obj" where
  "getIs currentMediaType breakpoints =
     transform
       (\<lambda>result (mediaType, breakpoint).
          if typeof breakpoint = ''number'' \<and> truthy (get breakpoints mediaType)
          then assign mediaType (Bool (mediaType = currentMediaType)) result
          else assign mediaType (Bool False) result)
       breakpoints"

definition getGreaterThan :: "string \<Rightarrow> order_map \<Rightarrow> obj" where
  "getGreaterThan currentMediaType breakpointOrder =
     (let currentOrder = rank_of breakpointOrder currentMediaType in
      transform
        (\<lambda>result (mediaType, breakpoint).
           if typeof (rank_value breakpoint) = ''number''
           then assign mediaType
                  (Bool (rank_less (rank_of breakpointOrder mediaType) currentOrder)) result
           else assign mediaType (Bool False) result)
        breakpointOrder)"

section \<open>Media type and orientation\<close>

text \<open>
  The evaluator \<open>matchMedia\<close> is \<open>None\<close> when the environment has none (\<open>undefined\<close>);
  otherwise it gives, for a query, the \<open>matches\<close> flag of the object it returns.
\<close>

type_synonym evaluator = "(string \<Rightarrow> bool) option"

definition getMediaType :: "evaluator \<Rightarrow> (string \<times> string) list \<Rightarrow> string \<Rightarrow> string" where
  "getMediaType matchMedia mediaQueries infinityMediaType =
     (case matchMedia of
        None \<Rightarrow> infinityMediaType
      | Some mm \<Rightarrow>
          reduce mediaQueries
            (\<lambda>result (type, query). if mm query then type else result)
            infinityMediaType)"

definition defaultOrientation :: jsval where
  "defaultOrientation = Null"

definition getOrientation :: "evaluator \<Rightarrow> jsval" where
  "getOrientation matchMedia =
     (case matchMedia of
        None \<Rightarrow> defaultOrientation
      | Some mm \<Rightarrow>
          reduce [(''portrait'', ''(orientation: portrait)''),
                  (''landscape'', ''(orientation: landscape)'')]
            (\<lambda>result (type, query). if mm query then String type else result)
            defaultOrientation)"

section \<open>The reducer factory\<close>

text \<open>
  Objects live in a heap, a reference being an index into it. Allocation appends, so no
  reference that is already held changes its meaning.
\<close>

type_synonym heap = "obj list"

definition alloc :: "heap \<Rightarrow> obj \<Rightarrow> nat \<times> heap" where
  "alloc h ob = (length h, h @ [ob])"

text \<open>The object spread \<open>{...target, ...source}\<close>, given the properties copied so far.\<close>

definition spread :: "obj \<Rightarrow> obj \<Rightarrow> obj" where
  "spread target source = foldl (\<lambda>ob (k, v). assign k v ob) target source"

text \<open>
  What the module takes from outside this file: the action type it imports, the function
  \<open>MediaQuery.asObject\<close> of the package \<open>mediaquery\<close>, the conversions of the language, and
  the address at which the module's own object \<open>defaultBreakpoints\<close> was allocated when the
  module was loaded.
\<close>

record module_env =
  CALCULATE_RESPONSIVE_STATE :: string
  MediaQuery_asObject :: "obj \<Rightarrow> (string \<times> string) list"
  conv :: conversions
  defaultBreakpoints :: nat

definition defaultBreakpoints_object :: obj where
  "defaultBreakpoints_object =
     [(''extraSmall'', Number (Fin 480)),
      (''small'', Number (Fin 768)),
      (''medium'', Number (Fin 992)),
      (''large'', Number (Fin 1200))]"

definition defaultMediaType :: string where
  "defaultMediaType = ''infinity''"

text \<open>
  The second argument of the factory; \<open>None\<close> is a property that is absent. The function
  \<open>extraFields\<close> reads the heap and the reference it is given, and gives the properties of
  the object it returns.
\<close>

record options =
  opt_initialMediaType :: "string option"
  opt_infinity :: "string option"
  opt_extraFields :: "(heap \<Rightarrow> jsval \<Rightarrow> obj) option"

definition no_options :: options where
  "no_options = \<lparr>opt_initialMediaType = None, opt_infinity = None, opt_extraFields = None\<rparr>"

text \<open>What the returned reducer closes over.\<close>

record reducer_env =
  breakpoints :: nat
  mediaQueries :: "(string \<times> string) list"
  mediaOrdering :: order_map
  initialMediaType :: "string option"
  infinity :: string
  extraFields :: "heap \<Rightarrow> jsval \<Rightarrow> obj"

text \<open>
  The factory. Its first argument is a reference to the caller's object, or \<open>None\<close> for
  \<open>null\<close> and \<open>undefined\<close>. It returns what the reducer closes over and the heap it
  leaves.
\<close>

definition createResponsiveStateReducer ::
    "module_env \<Rightarrow> heap \<Rightarrow> nat option \<Rightarrow> options \<Rightarrow> reducer_env \<times> heap" where
  "createResponsiveStateReducer m h breakpoints_arg opts =
     (let inf = (case opt_infinity opts of None \<Rightarrow> defaultMediaType | Some s \<Rightarrow> s);
          extra = (case opt_extraFields opts of None \<Rightarrow> (\<lambda>h s. []) | Some f \<Rightarrow> f);
          bp = (case breakpoints_arg of None \<Rightarrow> defaultBreakpoints m | Some r \<Rightarrow> r);
          h' = h[bp := assign inf (Number PosInf) (h ! bp)];
          mq = MediaQuery_asObject m (h' ! bp);
          om = getOrderMap (conv m) (h' ! bp)
      in (\<lparr>breakpoints = bp, mediaQueries = mq, mediaOrdering = om,
            initialMediaType = opt_initialMediaType opts, infinity = inf,
            extraFields = extra\<rparr>,
          h'))"

section \<open>The reducer\<close>

record action =
  act_type :: string
  act_matchMedia :: evaluator

text \<open>
  The object literal \<open>responsiveState\<close>: its properties, and the heap once the three
  comparison maps are allocated.
\<close>

definition responsiveState :: "reducer_env \<Rightarrow> heap \<Rightarrow> jsval \<Rightarrow> action \<Rightarrow> obj \<times> heap" where
  "responsiveState env h state act =
     (let mediaType =
            (case initialMediaType env of
               Some t \<Rightarrow>
                 if \<not> truthy state \<and> truthy (String t) then t
                 else getMediaType (act_matchMedia act) (mediaQueries env) (infinity env)
             | None \<Rightarrow> getMediaType (act_matchMedia act) (mediaQueries env) (infinity env));
          orientation = getOrientation (act_matchMedia act);
          (lt, h1) = alloc h (getLessThan mediaType (mediaOrdering env));
          (gt, h2) = alloc h1 (getGreaterThan mediaType (mediaOrdering env));
          (iss, h3) = alloc h2 (getIs mediaType (h2 ! breakpoints env))
      in ([(''_responsiveState'', Bool True),
           (''lessThan'', Ref lt),
           (''greaterThan'', Ref gt),
           (''is'', Ref iss),
           (''mediaType'', String mediaType),
           (''orientation'', orientation),
           (''breakpoints'', Ref (breakpoints env))],
          h3))"

definition reducer :: "module_env \<Rightarrow> reducer_env \<Rightarrow> heap \<Rightarrow> jsval \<Rightarrow> action \<Rightarrow> jsval \<times> heap" where
  "reducer m env h state act =
     (if act_type act = CALCULATE_RESPONSIVE_STATE m \<or> typeof state = ''undefined'' then
        let (base, h3) = responsiveState env h state act;
            (rs, h4) = alloc h3 base;
            (res, h5) = alloc h4 (spread (spread [] base) (extraFields env h4 (Ref rs)))
        in (Ref res, h5)
      else (state, h))"

text \<open>Reading a state: a property through a reference, and the object a value refers to.\<close>

definition field :: "heap \<Rightarrow> jsval \<Rightarrow> string \<Rightarrow> jsval" where
  "field h v k =
     (case v of Ref r \<Rightarrow> if r < length h then get (h ! r) k else Undefined | _ \<Rightarrow> Undefined)"

definition deref :: "heap \<Rightarrow> jsval \<Rightarrow> obj option" where
  "deref h v = (case v of Ref r \<Rightarrow> if r < length h then Some (h ! r) else None | _ \<Rightarrow> None)"

text \<open>
  Building a reducer on the caller's object at \<open>r\<close> and calling it once, on the state
  \<open>undefined\<close>: the state it returns and the heap it leaves.
\<close>

definition first_state ::
    "module_env \<Rightarrow> heap \<Rightarrow> nat \<Rightarrow> options \<Rightarrow> action \<Rightarrow> jsval \<times> heap" where
  "first_state m h r opts act =
     (case createResponsiveStateReducer m h (Some r) opts of
        (env, h1) \<Rightarrow> reducer m env h1 Undefined act)"

definition state_field :: "jsval \<times> heap \<Rightarrow> string \<Rightarrow> jsval" where
  "state_field res k = (case res of (s, h) \<Rightarrow> field h s k)"

definition state_map :: "jsval \<times> heap \<Rightarrow> string \<Rightarrow> obj option" where
  "state_map res k = (case res of (s, h) \<Rightarrow> deref h (field h s k))"

section \<open>Example inputs\<close>

text \<open>
  The number a string converts to, computed exactly: white space around it is dropped, the
  empty string is 0, then come the signed decimal literals with their fraction and
  exponent, \<open>Infinity\<close>, and the unsigned binary, octal and hexadecimal integers; every
  other string is \<open>NaN\<close>.
\<close>

definition is_space :: "char \<Rightarrow> bool" where
  "is_space c = ((of_char c :: nat) \<in> {9, 10, 11, 12, 13, 32, 160})"

definition trim :: "string \<Rightarrow> string" where
  "trim s = rev (dropWhile is_space (rev (dropWhile is_space s)))"

definition digit_in :: "int \<Rightarrow> char \<Rightarrow> int option" where
  "digit_in b c =
     (let n = (of_char c :: int);
          v = (if 48 \<le> n \<and> n \<le> 57 then n - 48
               else if 97 \<le> n \<and> n \<le> 102 then n - 87
               else if 65 \<le> n \<and> n \<le> 70 then n - 55
               else b)
      in if v < b then Some v else None)"

fun number_in :: "int \<Rightarrow> string \<Rightarrow> int \<Rightarrow> int option" where
  "number_in b [] acc = Some acc"
| "number_in b (c # cs) acc =
     (case digit_in b c of None \<Rightarrow> None | Some v \<Rightarrow> number_in b cs (b * acc + v))"

definition integer_literal :: "int \<Rightarrow> string \<Rightarrow> int option" where
  "integer_literal b s = (if s = [] then None else number_in b s 0)"

definition signed_integer :: "string \<Rightarrow> int option" where
  "signed_integer s =
     (case s of
        [] \<Rightarrow> None
      | c # t \<Rightarrow>
          if c = CHR ''+'' then integer_literal 10 t
          else if c = CHR ''-'' then map_option uminus (integer_literal 10 t)
          else integer_literal 10 s)"

definition scale :: "real \<Rightarrow> int \<Rightarrow> real" where
  "scale x e = (if 0 \<le> e then x * 10 ^ nat e else x / 10 ^ nat (- e))"

definition unsigned_decimal :: "string \<Rightarrow> real option" where
  "unsigned_decimal s =
     (let ip = takeWhile is_digit s;
          r1 = dropWhile is_digit s;
          dot = (r1 \<noteq> [] \<and> hd r1 = CHR ''.'');
          fp = (if dot then takeWhile is_digit (tl r1) else []);
          r2 = (if dot then dropWhile is_digit (tl r1) else r1);
          mant = real_of_int (digits_value ip) + real_of_int (digits_value fp) / 10 ^ length fp
      in if ip = [] \<and> fp = [] then None
         else (case r2 of
                 [] \<Rightarrow> Some mant
               | c # t \<Rightarrow>
                   if c = CHR ''e'' \<or> c = CHR ''E''
                   then map_option (scale mant) (signed_integer t)
                   else None))"

definition unsigned_literal :: "string \<Rightarrow> jsnum" where
  "unsigned_literal s =
     (if s = ''Infinity'' then PosInf
      else (case unsigned_decimal s of None \<Rightarrow> NaN | Some x \<Rightarrow> Fin x))"

fun negate :: "jsnum \<Rightarrow> jsnum" where
  "negate (Fin x) = Fin (- x)"
| "negate PosInf = NegInf"
| "negate NegInf = PosInf"
| "negate NaN = NaN"

definition radix_literal :: "int \<Rightarrow> string \<Rightarrow> jsnum" where
  "radix_literal b s = (case integer_literal b s of None \<Rightarrow> NaN | Some n \<Rightarrow> Fin (real_of_int n))"

definition parse_number :: "string \<Rightarrow> jsnum" where
  "parse_number s =
     (case trim s of
        [] \<Rightarrow> Fin 0
      | c # t \<Rightarrow>
          if c = CHR ''+'' then unsigned_literal t
          else if c = CHR ''-'' then negate (unsigned_literal t)
          else if c = CHR ''0'' \<and> t \<noteq> [] \<and> (hd t = CHR ''x'' \<or> hd t = CHR ''X'')
          then radix_literal 16 (tl t)
          else if c = CHR ''0'' \<and> t \<noteq> [] \<and> (hd t = CHR ''o'' \<or> hd t = CHR ''O'')
          then radix_literal 8 (tl t)
          else if c = CHR ''0'' \<and> t \<noteq> [] \<and> (hd t = CHR ''b'' \<or> hd t = CHR ''B'')
          then radix_literal 2 (tl t)
          else unsigned_literal (c # t))"

text \<open>
  The conversions on a heap whose objects are all plain, each of which converts to the
  same string. Then a module whose imports are filled in, a heap holding the module's
  default breakpoints and one object of the caller, and an event that is not the
  recalculate action and carries no evaluator.
\<close>

definition example_conversions :: conversions where
  "example_conversions =
     \<lparr>StringToNumber = parse_number, ToPrimitive = (\<lambda>r. Inl ''[object Object]'')\<rparr>"

definition example_module :: module_env where
  "example_module =
     \<lparr>CALCULATE_RESPONSIVE_STATE = ''redux-responsive/CALCULATE_RESPONSIVE_STATE'',
      MediaQuery_asObject = (\<lambda>ob. map (\<lambda>(k, v). (k, ''(min-width: 0px)'')) ob),
      conv = example_conversions,
      defaultBreakpoints = 0\<rparr>"

definition example_heap :: "obj \<Rightarrow> heap" where
  "example_heap ob = [defaultBreakpoints_object, ob]"

definition init_action :: action where
  "init_action = \<lparr>act_type = ''@@redux/INIT'', act_matchMedia = None\<rparr>"

section \<open>Properties of assignment and of the library functions\<close>

lemma map_of_insert_index:
  "k \<notin> fst ` set ob \<Longrightarrow> map_of (insert_index i k v ob) = (map_of ob)(k \<mapsto> v)"
proof (induction ob)
  case Nil
  then show ?case by simp
next
  case (Cons p ob)
  obtain k' v' where p: "p = (k', v')" by (cases p)
  from Cons.prems p have ne: "k' \<noteq> k" and notin: "k \<notin> fst ` set ob" by auto
  from Cons.IH [OF notin] ne show ?case
    by (auto simp add: p fun_upd_twist split: option.splits)
qed

lemma map_of_assign: "map_of (assign k v ob) = (map_of ob)(k \<mapsto> v)"
proof (cases "k \<in> fst ` set ob")
  case True
  then show ?thesis by (simp add: assign_def AList.update_conv')
next
  case False
  then have none: "map_of ob k = None" by (simp add: map_of_eq_None_iff)
  show ?thesis
  proof (cases "array_index k")
    case None
    with False none show ?thesis
      by (auto simp add: assign_def fun_eq_iff map_add_def split: option.splits)
  next
    case (Some i)
    with False show ?thesis by (simp add: assign_def map_of_insert_index)
  qed
qed

lemma set_insert_index: "set (insert_index i k v ob) = insert (k, v) (set ob)"
  by (induction ob) (auto split: option.splits)

lemma keys_assign: "fst ` set (assign k v ob) = insert k (fst ` set ob)"
proof (cases "k \<in> fst ` set ob")
  case True
  then show ?thesis using AList.dom_update [of k v ob] by (auto simp add: assign_def)
next
  case False
  then show ?thesis
    by (cases "array_index k") (simp_all add: assign_def set_insert_index)
qed

lemma filter_insert_index:
  "filter (\<lambda>p. fst p \<noteq> k) (insert_index i k v ob) = filter (\<lambda>p. fst p \<noteq> k) ob"
  by (induction ob) (auto split: option.splits)

lemma filter_update:
  "filter (\<lambda>p. fst p \<noteq> k) (AList.update k v ob) = filter (\<lambda>p. fst p \<noteq> k) ob"
  by (induction ob) auto

text \<open>An assignment leaves the other properties in their order.\<close>

lemma filter_assign:
  "filter (\<lambda>p. fst p \<noteq> k) (assign k v ob) = filter (\<lambda>p. fst p \<noteq> k) ob"
  by (cases "array_index k") (simp_all add: assign_def filter_insert_index filter_update)

lemma get_assign: "get (assign k v ob) k' = (if k' = k then v else get ob k')"
  by (simp add: get_def map_of_assign)

lemma map_of_rev_distinct: "distinct (map fst xs) \<Longrightarrow> map_of (rev xs) = map_of xs"
proof (induction xs)
  case Nil
  then show ?case by simp
next
  case (Cons p xs)
  obtain k v where p: "p = (k, v)" by (cases p)
  from Cons.prems p have "map_of xs k = None"
    by (simp add: map_of_eq_None_iff)
  with Cons show ?case
    by (auto simp add: p map_add_def fun_eq_iff split: option.splits)
qed

lemma map_of_foldl_assign:
  "map_of (foldl (\<lambda>r (k, v). assign k (g k v) r) acc ob) x =
     (case map_of (rev ob) x of Some v \<Rightarrow> Some (g x v) | None \<Rightarrow> map_of acc x)"
proof (induction ob arbitrary: acc)
  case Nil
  then show ?case by simp
next
  case (Cons p ob)
  obtain k v where p: "p = (k, v)" by (cases p)
  show ?case
    by (simp add: p Cons.IH map_of_assign map_add_def split: option.splits)
qed

text \<open>
  A callback that assigns to the name it visits gives an object with the same names, each
  holding what the callback computes for it.
\<close>

lemma map_of_transform_assign:
  assumes "distinct (map fst ob)"
  shows "map_of (transform (\<lambda>r (k, v). assign k (g k v) r) ob) x =
           (case map_of ob x of None \<Rightarrow> None | Some v \<Rightarrow> Some (g x v))"
  unfolding transform_def map_of_foldl_assign map_of_rev_distinct [OF assms]
  by (simp split: option.splits)

lemma foldl_last_match:
  "foldl (\<lambda>result (type, query). if mm query then type else result) acc qs =
     (case filter (\<lambda>(type, query). mm query) qs of [] \<Rightarrow> acc | ms \<Rightarrow> fst (last ms))"
proof (induction qs rule: rev_induct)
  case Nil
  then show ?case by simp
next
  case (snoc p qs)
  obtain t q where p: "p = (t, q)" by (cases p)
  show ?case
  proof (cases "mm q")
    case True
    then show ?thesis by (simp add: p list.case_eq_if)
  next
    case False
    with snoc.IH show ?thesis by (simp add: p list.case_eq_if)
  qed
qed

section \<open>The comparison maps, entry by entry\<close>

lemma map_of_getLessThan:
  assumes d: "distinct (map fst om)"
  shows "map_of (getLessThan cur om) k =
     (case map_of om k of
        None \<Rightarrow> None
      | Some i \<Rightarrow> Some (Bool (truthy (rank_of om k)
                                \<and> rank_less (rank_of om cur) (rank_of om k))))"
proof -
  have eq: "(\<lambda>result (mediaType, breakpoint).
           if typeof (rank_value breakpoint) = ''number''
              \<and> truthy (rank_of om mediaType)
           then assign mediaType
                  (Bool (rank_less (rank_of om cur) (rank_of om mediaType))) result
           else assign mediaType (Bool False) result)
     = (\<lambda>r (k, i). assign k
           (Bool (truthy (rank_of om k) \<and> rank_less (rank_of om cur) (rank_of om k))) r)"
    by (auto simp: fun_eq_iff rank_value_def)
  show ?thesis
    unfolding getLessThan_def Let_def eq by (rule map_of_transform_assign [OF d])
qed

text \<open>The definitions a concrete run unfolds.\<close>

lemmas evaluation_defs = createResponsiveStateReducer_def no_options_def defaultMediaType_def
        getOrderMap_def Array_sort_def comparator_def get_def transform_def
        js_ge_def num_ge_def assign_def array_index_def is_digit_def digits_value_def
        reducer_def responsiveState_def getMediaType_def getOrientation_def defaultOrientation_def
        getLessThan_def getGreaterThan_def getIs_def rank_of_def rank_value_def
        alloc_def spread_def field_def deref_def nth_append Let_def
        example_conversions_def example_module_def example_heap_def init_action_def
        defaultBreakpoints_object_def first_state_def state_field_def state_map_def

section \<open>\<open>lessThan\<close> and rank 0\<close>

text \<open>
  C1, as the code has it. When the current media type has rank 0, \<open>lessThan\<close> is not false
  everywhere: the guard of \<open>getLessThan\<close> tests the rank of the entry it visits, not the
  rank of the current type. With the order map \<open>{small: 0, large: 1}\<close> and the current type
  \<open>small\<close>, the entry \<open>large\<close> is true.
\<close>

theorem lessThan_current_rank_zero_counterexample:
  "map_of [(''small'', 0::nat), (''large'', 1)] ''small'' = Some 0 \<and>
   getLessThan ''small'' [(''small'', 0), (''large'', 1)]
     = [(''small'', Bool False), (''large'', Bool True)]"
  by (simp add: evaluation_defs)

text \<open>
  C1, amended. When the current media type has rank 0, \<open>lessThan\<close> maps a breakpoint name
  to true exactly when that breakpoint's own rank is not 0.
\<close>

theorem lessThan_current_rank_zero:
  assumes "distinct (map fst om)" and "map_of om cur = Some 0" and "map_of om m = Some i"
  shows "map_of (getLessThan cur om) m = Some (Bool (0 < i))"
  using assms
  by (auto simp add: map_of_getLessThan rank_of_def rank_value_def)

theorem lessThan_current_rank_zero_witness:
  "distinct (map fst [(''small'', 0::nat), (''large'', 1)]) \<and>
   map_of [(''small'', 0::nat), (''large'', 1)] ''small'' = Some 0 \<and>
   map_of [(''small'', 0::nat), (''large'', 1)] ''large'' = Some 1 \<and>
   map_of (getLessThan ''small'' [(''small'', 0), (''large'', 1)]) ''large''
     = Some (Bool (0 < (1::nat)))"
  using lessThan_current_rank_zero
          [of "[(''small'', 0), (''large'', 1)]" "''small''" "''large''" 1]
  by simp

text \<open>
  C10. Whatever the current media type, the breakpoint of rank 0 is false in \<open>lessThan\<close>:
  the guard reads the visited entry's own rank, and 0 is falsy.
\<close>

theorem lessThan_lowest_rank_false:
  assumes "distinct (map fst om)" and "map_of om m = Some 0"
  shows "map_of (getLessThan cur om) m = Some (Bool False)"
  using assms
  by (simp add: map_of_getLessThan rank_of_def rank_value_def)

theorem lessThan_lowest_rank_false_witness:
  "distinct (map fst [(''small'', 0::nat), (''large'', 1)]) \<and>
   map_of [(''small'', 0::nat), (''large'', 1)] ''small'' = Some 0 \<and>
   map_of (getLessThan ''large'' [(''small'', 0), (''large'', 1)]) ''small''
     = Some (Bool False)"
  using lessThan_lowest_rank_false [of "[(''small'', 0), (''large'', 1)]" "''small''" "''large''"]
  by simp

section \<open>The media type resolver\<close>

text \<open>
  C4. Without an evaluator the resolver returns the fallback. With one, it returns the name
  of the last query, in the enumeration order of the query set, that the evaluator matches,
  and the fallback when none matches; so when both queries of \<open>{small: q1, large: q2}\<close>
  match, the result is \<open>large\<close>.
\<close>

theorem getMediaType_last_match:
  "getMediaType None qs fallback = fallback \<and>
   getMediaType (Some mm) qs fallback =
     (case filter (\<lambda>(type, query). mm query) qs of
        [] \<Rightarrow> fallback
      | ms \<Rightarrow> fst (last ms)) \<and>
   (mm q1 \<and> mm q2 \<longrightarrow>
      getMediaType (Some mm) [(''small'', q1), (''large'', q2)] fallback = ''large'')"
  by (simp add: getMediaType_def reduce_def foldl_last_match)

theorem getMediaType_last_match_witness:
  "getMediaType None [(''small'', ''q1''), (''large'', ''q2'')] ''infinity'' = ''infinity'' \<and>
   getMediaType (Some (\<lambda>q. True)) [(''small'', ''q1''), (''large'', ''q2'')] ''infinity''
     = ''large'' \<and>
   getMediaType (Some (\<lambda>q. q = ''q1'')) [(''small'', ''q1''), (''large'', ''q2'')] ''infinity''
     = ''small''"
  using getMediaType_last_match
          [of "[(''small'', ''q1''), (''large'', ''q2'')]" "''infinity''" "\<lambda>q. True"
              "''q1''" "''q2''"]
        getMediaType_last_match
          [of "[(''small'', ''q1''), (''large'', ''q2'')]" "''infinity''" "\<lambda>q. q = ''q1''"
              "''q1''" "''q2''"]
  by simp

section \<open>Events that do not recalculate\<close>

text \<open>
  C7. On a state that is not \<open>undefined\<close> and an event whose type is not the recalculate
  action, the reducer returns the value it was given: the same reference when the state is
  an object, and a heap in which nothing was allocated or written.
\<close>

theorem reducer_other_event:
  assumes "typeof state \<noteq> ''undefined''"
    and "act_type act \<noteq> CALCULATE_RESPONSIVE_STATE m"
  shows "reducer m env h state act = (state, h)"
  using assms by (simp add: reducer_def)

theorem reducer_other_event_witness:
  "typeof (Ref 1) \<noteq> ''undefined'' \<and>
   ''@@redux/INIT'' \<noteq> ''CALCULATE'' \<and>
   reducer
     \<lparr>CALCULATE_RESPONSIVE_STATE = ''CALCULATE'', MediaQuery_asObject = (\<lambda>ob. []),
        conv = example_conversions, defaultBreakpoints = 0\<rparr>
     \<lparr>breakpoints = 0, mediaQueries = [], mediaOrdering = [(''infinity'', 0)],
        initialMediaType = None, infinity = ''infinity'', extraFields = (\<lambda>h s. [])\<rparr>
     [[(''infinity'', Number PosInf)], [(''mediaType'', String ''infinity'')]]
     (Ref 1)
     \<lparr>act_type = ''@@redux/INIT'', act_matchMedia = None\<rparr>
   = (Ref 1, [[(''infinity'', Number PosInf)], [(''mediaType'', String ''infinity'')]])"
  using reducer_other_event
          [of "Ref 1" "\<lparr>act_type = ''@@redux/INIT'', act_matchMedia = None\<rparr>"
              "\<lparr>CALCULATE_RESPONSIVE_STATE = ''CALCULATE'', MediaQuery_asObject = (\<lambda>ob. []),
                 conv = example_conversions, defaultBreakpoints = 0\<rparr>"]
  by simp

section \<open>The end-to-end example\<close>

text \<open>
  C3, as the code has it. For breakpoints \<open>{small: 768, large: 1200}\<close>, default options
  and a first call without evaluator, the \<open>is\<close> map is not false everywhere: the current
  media type is \<open>infinity\<close>, whose value is a number and truthy, so \<open>is.infinity\<close> is true.
\<close>

theorem example_state_is_counterexample:
  "state_map
     (first_state example_module
        (example_heap [(''small'', Number (Fin 768)), (''large'', Number (Fin 1200))])
        1 no_options init_action)
     ''is''
   \<noteq> Some [(''small'', Bool False), (''large'', Bool False), (''infinity'', Bool False)]"
  by (simp add: evaluation_defs)

text \<open>
  C3, amended. The resulting state has mediaType \<open>infinity\<close>, orientation \<open>null\<close>,
  \<open>is = {small: false, large: false, infinity: true}\<close>,
  \<open>lessThan = {small: false, large: false, infinity: false}\<close> and
  \<open>greaterThan = {small: true, large: true, infinity: false}\<close>, whatever the module's
  imports and the type of the event.
\<close>

theorem example_state:
  "state_field
     (first_state M (example_heap [(''small'', Number (Fin 768)), (''large'', Number (Fin 1200))])
        1 no_options \<lparr>act_type = t, act_matchMedia = None\<rparr>)
     ''mediaType'' = String ''infinity'' \<and>
   state_field
     (first_state M (example_heap [(''small'', Number (Fin 768)), (''large'', Number (Fin 1200))])
        1 no_options \<lparr>act_type = t, act_matchMedia = None\<rparr>)
     ''orientation'' = Null \<and>
   state_map
     (first_state M (example_heap [(''small'', Number (Fin 768)), (''large'', Number (Fin 1200))])
        1 no_options \<lparr>act_type = t, act_matchMedia = None\<rparr>)
     ''is''
     = Some [(''small'', Bool False), (''large'', Bool False), (''infinity'', Bool True)] \<and>
   state_map
     (first_state M (example_heap [(''small'', Number (Fin 768)), (''large'', Number (Fin 1200))])
        1 no_options \<lparr>act_type = t, act_matchMedia = None\<rparr>)
     ''lessThan''
     = Some [(''small'', Bool False), (''large'', Bool False), (''infinity'', Bool False)] \<and>
   state_map
     (first_state M (example_heap [(''small'', Number (Fin 768)), (''large'', Number (Fin 1200))])
        1 no_options \<lparr>act_type = t, act_matchMedia = None\<rparr>)
     ''greaterThan''
     = Some [(''small'', Bool True), (''large'', Bool True), (''infinity'', Bool False)]"
  by (simp add: evaluation_defs)

section \<open>Breakpoints whose value is not a number\<close>

text \<open>
  C2, at an input where the code departs from it. \<open>getLessThan\<close> and \<open>getGreaterThan\<close>
  test the type of the value they visit in the order map, which is a rank and always a
  number, not the type of the configured breakpoint. With breakpoints
  \<open>{small: 768, x: "foo"}\<close> and no evaluator the current type is \<open>infinity\<close> of rank 1, and
  \<open>x\<close> of rank 2 is true in \<open>lessThan\<close>. With \<open>{x: "bar", y: "foo"}\<close> and the current type
  \<open>y\<close>, \<open>x\<close> is true in \<open>greaterThan\<close>.
\<close>

theorem nonnumeric_breakpoint_lessThan_true:
  "getOrderMap example_conversions
     [(''small'', Number (Fin 768)), (''x'', String ''foo''), (''infinity'', Number PosInf)]
     = [(''small'', 0), (''x'', 2), (''infinity'', 1)] \<and>
   state_field
     (first_state example_module
        (example_heap [(''small'', Number (Fin 768)), (''x'', String ''foo'')])
        1 no_options init_action)
     ''mediaType'' = String ''infinity'' \<and>
   state_map
     (first_state example_module
        (example_heap [(''small'', Number (Fin 768)), (''x'', String ''foo'')])
        1 no_options init_action)
     ''lessThan''
     = Some [(''small'', Bool False), (''x'', Bool True), (''infinity'', Bool False)] \<and>
   getOrderMap example_conversions [(''x'', String ''bar''), (''y'', String ''foo'')]
     = [(''x'', 0), (''y'', 1)] \<and>
   getGreaterThan ''y'' [(''x'', 0), (''y'', 1)] = [(''x'', Bool True), (''y'', Bool False)]"
  by (simp add: evaluation_defs)

section \<open>Sorting the breakpoint names\<close>

lemma set_insert_by: "set (insert_by cmp x ys) = insert x (set ys)"
  by (induction ys) auto

lemma length_insert_by: "length (insert_by cmp x ys) = Suc (length ys)"
  by (induction ys) auto

lemma set_sort_into: "set (sort_into cmp acc xs) = set acc \<union> set xs"
  by (induction xs arbitrary: acc) (auto simp add: set_insert_by)

lemma length_sort_into: "length (sort_into cmp acc xs) = length acc + length xs"
  by (induction xs arbitrary: acc) (auto simp add: length_insert_by)

text \<open>The sort returns the names it was given, each once.\<close>

lemma Array_sort_permutes:
  "set (Array_sort cmp xs) = set xs"
  "length (Array_sort cmp xs) = length xs"
  "distinct xs \<Longrightarrow> distinct (Array_sort cmp xs)"
proof -
  show s: "set (Array_sort cmp xs) = set xs"
    by (simp add: Array_sort_def set_sort_into)
  show l: "length (Array_sort cmp xs) = length xs"
    by (simp add: Array_sort_def length_sort_into)
  assume "distinct xs"
  then have "card (set (Array_sort cmp xs)) = length (Array_sort cmp xs)"
    by (simp add: s l distinct_card)
  then show "distinct (Array_sort cmp xs)" by (rule card_distinct)
qed

text \<open>
  When an element is put before another only if a transitive relation allows it, and after
  it only if the relation allows that, the sort returns the elements in that relation.
\<close>

lemma insert_by_sorted:
  assumes before: "\<And>y. y \<in> set ys \<Longrightarrow> cmp x y < 0 \<Longrightarrow> le x y"
    and after: "\<And>y. y \<in> set ys \<Longrightarrow> \<not> cmp x y < 0 \<Longrightarrow> le y x"
    and trans: "\<And>y z. y \<in> set ys \<Longrightarrow> z \<in> set ys \<Longrightarrow> le x y \<Longrightarrow> le y z \<Longrightarrow> le x z"
    and sorted: "sorted_wrt le ys"
  shows "sorted_wrt le (insert_by cmp x ys)"
  using assms
proof (induction ys)
  case Nil
  then show ?case by simp
next
  case (Cons y ys)
  show ?case
  proof (cases "cmp x y < 0")
    case True
    then have xy: "le x y" using Cons.prems(1) [of y] by simp
    have "le x z" if "z \<in> set ys" for z
      using Cons.prems(3) [of y z] Cons.prems(4) xy that by simp
    with xy True Cons.prems(4) show ?thesis by simp
  next
    case False
    then have yx: "le y x" using Cons.prems(2) [of y] by simp
    have "sorted_wrt le (insert_by cmp x ys)"
      using Cons.prems by (intro Cons.IH) auto
    with yx False Cons.prems(4) show ?thesis by (auto simp add: set_insert_by)
  qed
qed

lemma sort_into_sorted:
  assumes before: "\<And>x y. x \<in> S \<Longrightarrow> y \<in> S \<Longrightarrow> cmp x y < 0 \<Longrightarrow> le x y"
    and after: "\<And>x y. x \<in> S \<Longrightarrow> y \<in> S \<Longrightarrow> \<not> cmp x y < 0 \<Longrightarrow> le y x"
    and trans: "\<And>x y z. x \<in> S \<Longrightarrow> y \<in> S \<Longrightarrow> z \<in> S \<Longrightarrow> le x y \<Longrightarrow> le y z \<Longrightarrow> le x z"
    and sub: "set acc \<union> set xs \<subseteq> S"
    and sorted: "sorted_wrt le acc"
  shows "sorted_wrt le (sort_into cmp acc xs)"
  using sub sorted
proof (induction xs arbitrary: acc)
  case Nil
  then show ?case by simp
next
  case (Cons x xs)
  have "sorted_wrt le (insert_by cmp x acc)"
  proof (rule insert_by_sorted)
    show "le x y" if "y \<in> set acc" "cmp x y < 0" for y
      using that Cons.prems(1) by (intro before) auto
    show "le y x" if "y \<in> set acc" "\<not> cmp x y < 0" for y
      using that Cons.prems(1) by (intro after) auto
    show "le x z" if "y \<in> set acc" "z \<in> set acc" "le x y" "le y z" for y z
      using that Cons.prems(1) by (intro trans [of x y z]) auto
    show "sorted_wrt le acc" by (rule Cons.prems(2))
  qed
  moreover have "set (insert_by cmp x acc) \<union> set xs \<subseteq> S"
    using Cons.prems(1) by (simp add: set_insert_by)
  ultimately show ?case by (simp add: Cons.IH)
qed

subsection \<open>The ranks\<close>

lemma indexOf_mem: "k \<in> set ks \<Longrightarrow> \<exists>i. indexOf ks k = Some i"
  by (induction ks) (auto split: option.splits)

lemma indexOf_Some_iff:
  "distinct ks \<Longrightarrow> indexOf ks k = Some i \<longleftrightarrow> (i < length ks \<and> ks ! i = k)"
proof (induction ks arbitrary: i)
  case Nil
  then show ?case by simp
next
  case (Cons x ks)
  show ?case
  proof (cases "x = k")
    case True
    with Cons.prems show ?thesis by (cases i) auto
  next
    case False
    show ?thesis
    proof (cases i)
      case 0
      with False show ?thesis by (simp split: option.splits)
    next
      case (Suc j)
      from Cons.prems have "distinct ks" by simp
      then have IH: "indexOf ks k = Some j \<longleftrightarrow> (j < length ks \<and> ks ! j = k)"
        by (rule Cons.IH)
      have "indexOf (x # ks) k = Some (Suc j) \<longleftrightarrow> indexOf ks k = Some j"
        using False by (cases "indexOf ks k") simp_all
      then show ?thesis unfolding IH Suc by simp
    qed
  qed
qed

lemma get_in_values: "k \<in> fst ` set bps \<Longrightarrow> get bps k \<in> snd ` set bps"
proof -
  assume "k \<in> fst ` set bps"
  then obtain v where v: "map_of bps k = Some v"
    by (cases "map_of bps k") (simp_all add: map_of_eq_None_iff)
  then have "(k, v) \<in> set bps" by (rule map_of_SomeD)
  then have "snd (k, v) \<in> snd ` set bps" by (rule imageI)
  then show ?thesis by (simp add: get_def v)
qed

text \<open>The rank of a name is its position in the sorted names.\<close>

lemma order_map_ranks:
  assumes d: "distinct (map fst bps)"
    and keys: "keys = Array_sort (comparator c bps) (map fst bps)"
  shows "map_of (getOrderMap c bps) k = Some i \<longleftrightarrow> (i < length keys \<and> keys ! i = k)"
proof -
  have set_keys: "set keys = fst ` set bps" and dist: "distinct keys"
    using Array_sort_permutes(1,3) [where cmp = "comparator c bps" and xs = "map fst bps"] d
    by (simp_all add: keys)
  define idx where "idx k = (case indexOf keys k of Some i \<Rightarrow> i | None \<Rightarrow> 0)" for k
  have "foldl (\<lambda>result (mediaType, breakpoint).
               case indexOf keys mediaType of
                 Some index \<Rightarrow> assign mediaType index result
               | None \<Rightarrow> result) [] bps
        = foldl (\<lambda>r (k, v). assign k (idx k) r) [] bps"
  proof (rule foldl_cong [OF refl refl])
    fix r :: order_map and p :: "string \<times> jsval"
    assume p: "p \<in> set bps"
    obtain k v where kv: "p = (k, v)" by (cases p)
    from p kv have "fst (k, v) \<in> fst ` set bps" by (intro imageI) simp
    then have "k \<in> set keys" by (simp add: set_keys)
    from indexOf_mem [OF this] obtain i where "indexOf keys k = Some i" ..
    then show "(case p of (mediaType, breakpoint) \<Rightarrow>
               (case indexOf keys mediaType of
                  Some index \<Rightarrow> assign mediaType index r
                | None \<Rightarrow> r)) = (case p of (k, v) \<Rightarrow> assign k (idx k) r)"
      by (simp add: kv idx_def)
  qed
  then have om: "getOrderMap c bps = transform (\<lambda>r (k, v). assign k (idx k) r) bps"
    by (simp add: getOrderMap_def Let_def transform_def keys)
  have rank: "map_of (getOrderMap c bps) k =
      (case map_of bps k of None \<Rightarrow> None | Some v \<Rightarrow> Some (idx k))"
    unfolding om by (rule map_of_transform_assign [OF d])
  show ?thesis
  proof (cases "map_of bps k")
    case None
    then have "k \<notin> set keys" by (simp add: set_keys map_of_eq_None_iff)
    with None show ?thesis by (auto simp add: rank)
  next
    case (Some v)
    then have "k \<in> fst ` set bps"
      by (cases "k \<in> fst ` set bps") (simp_all add: map_of_eq_None_iff [symmetric])
    then have "k \<in> set keys" by (simp add: set_keys)
    from indexOf_mem [OF this] obtain j where j: "indexOf keys k = Some j" ..
    have "map_of (getOrderMap c bps) k = Some j" by (simp add: rank Some idx_def j)
    then show ?thesis
      using indexOf_Some_iff [OF dist, of k] j by auto
  qed
qed

subsection \<open>The comparator on numbers and strings\<close>

lemma typeof_number_iff: "typeof v = ''number'' \<longleftrightarrow> (\<exists>n. v = Number n)"
  by (cases v) auto

lemma typeof_string_iff: "typeof v = ''string'' \<longleftrightarrow> (\<exists>s. v = String s)"
  by (cases v) auto

lemma num_less_asym: "num_less x y \<Longrightarrow> \<not> num_less y x"
  by (cases x; cases y) auto

lemma num_less_negtrans:
  "y \<noteq> NaN \<Longrightarrow> \<not> num_less y x \<Longrightarrow> \<not> num_less z y \<Longrightarrow> \<not> num_less z x"
  by (cases x; cases y; cases z) auto

lemma num_less_linear: "x \<noteq> NaN \<Longrightarrow> y \<noteq> NaN \<Longrightarrow> num_less x y \<or> x = y \<or> num_less y x"
  by (cases x; cases y) auto

lemma comparator_number_string:
  assumes "typeof (get bps a) = ''number''" and "typeof (get bps b) = ''string''"
  shows "comparator c bps a b = - 1" and "comparator c bps b a = 1"
  using assms by (simp_all add: comparator_def Let_def)

lemma comparator_numbers:
  assumes "get bps a = Number x" and "get bps b = Number y"
  shows "comparator c bps a b = (if num_ge x y then 1 else - 1)"
  using assms by (simp add: comparator_def Let_def js_ge_def)

section \<open>Numbers before strings\<close>

text \<open>
  C6, as the code has it. The comparator puts a number before a value only when that
  value is a string. A breakpoint whose value is \<open>null\<close> is compared as the number 0: in
  \<open>{x: null, a: 100}\<close> the non-numeric \<open>x\<close> has rank 0 and the numeric \<open>a\<close> rank 1.
\<close>

theorem getOrderMap_null_before_number_counterexample:
  "typeof Null \<noteq> ''number'' \<and>
   getOrderMap example_conversions [(''x'', Null), (''a'', Number (Fin 100))]
     = [(''x'', 0), (''a'', 1)]"
  by (simp add: evaluation_defs)

text \<open>
  C6, amended. In a configuration whose values are each a number or a string, every
  breakpoint whose value is a number has a strictly lower rank than every breakpoint whose
  value is a string, in whatever order the names were declared; so in
  \<open>{x: "foo", a: 100}\<close> the name \<open>a\<close> ranks before \<open>x\<close>.
\<close>

theorem getOrderMap_numbers_before_strings:
  assumes d: "distinct (map fst bps)"
    and ns: "\<forall>v \<in> snd ` set bps. typeof v = ''number'' \<or> typeof v = ''string''"
    and a: "map_of bps a = Some va" "typeof va = ''number''"
    and b: "map_of bps b = Some vb" "typeof vb = ''string''"
  shows "\<exists>i j. map_of (getOrderMap c bps) a = Some i \<and> map_of (getOrderMap c bps) b = Some j
           \<and> i < j"
proof -
  define keys where "keys = Array_sort (comparator c bps) (map fst bps)"
  define le where "le x y \<longleftrightarrow> (typeof (get bps y) = ''number'' \<longrightarrow> typeof (get bps x) = ''number'')"
    for x y
  let ?S = "fst ` set bps"
  have set_keys: "set keys = ?S"
    using Array_sort_permutes(1) [where cmp = "comparator c bps" and xs = "map fst bps"]
    by (simp add: keys_def)
  note ranks = order_map_ranks [OF d keys_def]
  have ty: "typeof (get bps k) = ''number'' \<or> typeof (get bps k) = ''string''" if "k \<in> ?S" for k
    using get_in_values [OF that] ns by blast
  have sorted: "sorted_wrt le keys"
    unfolding keys_def Array_sort_def
  proof (rule sort_into_sorted [where S = ?S])
    show "le x y" if "x \<in> ?S" "y \<in> ?S" "comparator c bps x y < 0" for x y
    proof (rule ccontr)
      assume "\<not> le x y"
      then have "typeof (get bps y) = ''number''" "typeof (get bps x) = ''string''"
        using ty [OF that(1)] by (auto simp add: le_def)
      from comparator_number_string(2) [OF this] that(3) show False by simp
    qed
    show "le y x" if "x \<in> ?S" "y \<in> ?S" "\<not> comparator c bps x y < 0" for x y
    proof (rule ccontr)
      assume "\<not> le y x"
      then have "typeof (get bps x) = ''number''" "typeof (get bps y) = ''string''"
        using ty [OF that(2)] by (auto simp add: le_def)
      from comparator_number_string(1) [OF this] that(3) show False by simp
    qed
    show "le x z" if "le x y" "le y z" for x y z
      using that by (simp add: le_def)
    show "set [] \<union> set (map fst bps) \<subseteq> ?S" by simp
    show "sorted_wrt le []" by simp
  qed
  have ga: "get bps a = va" and gb: "get bps b = vb"
    using a(1) b(1) by (simp_all add: get_def)
  from a(1) have "a \<in> ?S"
    by (cases "a \<in> ?S") (simp_all add: map_of_eq_None_iff [symmetric])
  then have "a \<in> set keys" by (simp add: set_keys)
  then obtain i where i: "i < length keys" "keys ! i = a" by (auto simp add: in_set_conv_nth)
  from b(1) have "b \<in> ?S"
    by (cases "b \<in> ?S") (simp_all add: map_of_eq_None_iff [symmetric])
  then have "b \<in> set keys" by (simp add: set_keys)
  then obtain j where j: "j < length keys" "keys ! j = b" by (auto simp add: in_set_conv_nth)
  have nle: "\<not> le b a"
    using a(2) b(2) by (simp add: le_def ga gb)
  have "i < j"
  proof (rule ccontr)
    assume "\<not> i < j"
    then consider "j < i" | "i = j" by linarith
    then show False
    proof cases
      case 1
      from sorted_wrt_nth_less [OF sorted 1 i(1)] nle i j show False by simp
    next
      case 2
      with i j have "a = b" by simp
      with ga gb a(2) b(2) show False by simp
    qed
  qed
  moreover have "map_of (getOrderMap c bps) a = Some i" "map_of (getOrderMap c bps) b = Some j"
    using i j by (simp_all add: ranks)
  ultimately show ?thesis by blast
qed

theorem getOrderMap_numbers_before_strings_witness:
  "distinct (map fst [(''x'', String ''foo''), (''a'', Number (Fin 100))]) \<and>
   typeof (Number (Fin 100)) = ''number'' \<and>
   typeof (String ''foo'') = ''string'' \<and>
   map_of [(''x'', String ''foo''), (''a'', Number (Fin 100))] ''a'' = Some (Number (Fin 100)) \<and>
   map_of [(''x'', String ''foo''), (''a'', Number (Fin 100))] ''x'' = Some (String ''foo'') \<and>
   getOrderMap example_conversions [(''x'', String ''foo''), (''a'', Number (Fin 100))]
     = [(''x'', 1), (''a'', 0)]"
  using getOrderMap_numbers_before_strings
          [of "[(''x'', String ''foo''), (''a'', Number (Fin 100))]"
              "''a''" "Number (Fin 100)" "''x''" "String ''foo''" example_conversions]
  by (simp add: evaluation_defs)

section \<open>Ranks of numeric breakpoints\<close>

text \<open>
  C5, as the code has it. \<open>NaN\<close> is a number to the comparator's \<open>typeof\<close> test, and
  every comparison with it answers that the first name goes first. In
  \<open>{a: 50, n: NaN, b: 100}\<close> the name \<open>n\<close> is put before \<open>a\<close> and then \<open>b\<close> before \<open>n\<close>:
  the width 100 has rank 0 and the width 50 rank 2.
\<close>

theorem getOrderMap_NaN_counterexample:
  "typeof (Number (Fin 50)) = ''number'' \<and> typeof (Number NaN) = ''number'' \<and>
   typeof (Number (Fin 100)) = ''number'' \<and>
   num_less (Fin 50) (Fin 100) \<and>
   Array_sort
     (comparator example_conversions
        [(''a'', Number (Fin 50)), (''n'', Number NaN), (''b'', Number (Fin 100))])
     [''a'', ''n'', ''b'']
     = [''b'', ''n'', ''a''] \<and>
   getOrderMap example_conversions
     [(''a'', Number (Fin 50)), (''n'', Number NaN), (''b'', Number (Fin 100))]
     = [(''a'', 2), (''n'', 1), (''b'', 0)]"
  by (simp add: evaluation_defs)

text \<open>
  C5, amended. When every value of the configuration is a number other than \<open>NaN\<close>,
  \<open>getOrderMap\<close> gives every name a rank below the number of names, no two names the same
  rank, and a name of smaller width a smaller rank. When the widths are pairwise different,
  the rank of a name is the number of names of smaller width: the k-th smallest width has
  rank k, counting from 0. So \<open>{a: 100, b: 200, c: 300}\<close> has ranks \<open>{a: 0, b: 1, c: 2}\<close>.
\<close>

theorem getOrderMap_numeric_ranks:
  assumes d: "distinct (map fst bps)"
    and num: "\<forall>v \<in> snd ` set bps. typeof v = ''number'' \<and> v \<noteq> Number NaN"
  shows "(\<forall>a \<in> fst ` set bps. \<exists>i < length bps. map_of (getOrderMap c bps) a = Some i) \<and>
         inj_on (map_of (getOrderMap c bps)) (fst ` set bps) \<and>
         (\<forall>a b i j.
            num_less (width bps a) (width bps b) \<and>
            map_of (getOrderMap c bps) a = Some i \<and> map_of (getOrderMap c bps) b = Some j
              \<longrightarrow> i < j) \<and>
         (inj_on (width bps) (fst ` set bps) \<longrightarrow>
            (\<forall>a \<in> fst ` set bps.
               map_of (getOrderMap c bps) a
                 = Some (card {b \<in> fst ` set bps. num_less (width bps b) (width bps a)})))"
proof -
  let ?S = "fst ` set bps"
  define keys where "keys = Array_sort (comparator c bps) (map fst bps)"
  define le where "le x y \<longleftrightarrow> \<not> num_less (width bps y) (width bps x)" for x y
  have set_keys: "set keys = ?S" and len: "length keys = length bps" and dist: "distinct keys"
    using Array_sort_permutes [where cmp = "comparator c bps" and xs = "map fst bps"] d
    by (simp_all add: keys_def)
  note ranks = order_map_ranks [OF d keys_def]
  have wd: "get bps k = Number (width bps k) \<and> width bps k \<noteq> NaN" if "k \<in> ?S" for k
  proof -
    from get_in_values [OF that] num
    have "typeof (get bps k) = ''number''" "get bps k \<noteq> Number NaN" by blast+
    then show ?thesis by (auto simp add: typeof_number_iff width_def)
  qed
  have cmp: "comparator c bps x y = (if num_ge (width bps x) (width bps y) then 1 else - 1)"
    if "x \<in> ?S" "y \<in> ?S" for x y
    using comparator_numbers [of bps x "width bps x" y "width bps y" c] wd [OF that(1)] wd [OF that(2)]
    by simp
  have sorted: "sorted_wrt le keys"
    unfolding keys_def Array_sort_def
  proof (rule sort_into_sorted [where S = ?S])
    show "le x y" if "x \<in> ?S" "y \<in> ?S" "comparator c bps x y < 0" for x y
    proof -
      from that(3) have "\<not> num_ge (width bps x) (width bps y)"
        by (simp add: cmp [OF that(1,2)] split: if_splits)
      then have "num_less (width bps x) (width bps y)"
        using wd [OF that(1)] wd [OF that(2)] by (simp add: num_ge_def)
      then show ?thesis unfolding le_def by (rule num_less_asym)
    qed
    show "le y x" if "x \<in> ?S" "y \<in> ?S" "\<not> comparator c bps x y < 0" for x y
    proof -
      from that(3) have "num_ge (width bps x) (width bps y)"
        by (simp add: cmp [OF that(1,2)] split: if_splits)
      then show ?thesis by (simp add: le_def num_ge_def)
    qed
    show "le x z" if "x \<in> ?S" "y \<in> ?S" "z \<in> ?S" "le x y" "le y z" for x y z
      using that(4,5) wd [OF that(2)] unfolding le_def
      by (metis num_less_negtrans)
    show "set [] \<union> set (map fst bps) \<subseteq> ?S" by simp
    show "sorted_wrt le []" by simp
  qed
  have pos: "\<exists>i < length keys. keys ! i = a" if "a \<in> ?S" for a
  proof -
    from that have "a \<in> set keys" by (simp add: set_keys)
    then show ?thesis by (simp add: in_set_conv_nth)
  qed
  have c1: "\<forall>a \<in> ?S. \<exists>i < length bps. map_of (getOrderMap c bps) a = Some i"
  proof
    fix a assume "a \<in> ?S"
    from pos [OF this] obtain i where "i < length keys" "keys ! i = a" by blast
    then show "\<exists>i < length bps. map_of (getOrderMap c bps) a = Some i"
      using ranks [of a i] len by auto
  qed
  have c2: "inj_on (map_of (getOrderMap c bps)) ?S"
  proof (rule inj_onI)
    fix a b
    assume a: "a \<in> ?S" and eq: "map_of (getOrderMap c bps) a = map_of (getOrderMap c bps) b"
    from pos [OF a] obtain i where i: "i < length keys" "keys ! i = a" by blast
    then have "map_of (getOrderMap c bps) a = Some i" by (simp add: ranks)
    with eq have "map_of (getOrderMap c bps) b = Some i" by simp
    then have "keys ! i = b" by (simp add: ranks)
    with i show "a = b" by simp
  qed
  have strict: "i < j"
    if lt: "num_less (width bps a) (width bps b)"
      and ra: "map_of (getOrderMap c bps) a = Some i"
      and rb: "map_of (getOrderMap c bps) b = Some j" for a b i j
  proof (rule ccontr)
    from ra rb have ij: "i < length keys" "keys ! i = a" "j < length keys" "keys ! j = b"
      by (simp_all add: ranks)
    assume "\<not> i < j"
    then consider "j < i" | "i = j" by linarith
    then show False
    proof cases
      case 1
      from sorted_wrt_nth_less [OF sorted 1 ij(1)] lt ij show False by (simp add: le_def)
    next
      case 2
      with ij have "a = b" by simp
      with lt num_less_asym [of "width bps a" "width bps a"] show False by simp
    qed
  qed
  have c3: "\<forall>a b i j.
            num_less (width bps a) (width bps b) \<and>
            map_of (getOrderMap c bps) a = Some i \<and> map_of (getOrderMap c bps) b = Some j
              \<longrightarrow> i < j"
    using strict by blast
  have c4: "inj_on (width bps) ?S \<longrightarrow>
            (\<forall>a \<in> ?S.
               map_of (getOrderMap c bps) a
                 = Some (card {b \<in> ?S. num_less (width bps b) (width bps a)}))"
  proof (intro impI ballI)
    fix a
    assume inj: "inj_on (width bps) ?S" and a: "a \<in> ?S"
    from pos [OF a] obtain i where i: "i < length keys" "keys ! i = a" by blast
    then have ra: "map_of (getOrderMap c bps) a = Some i" by (simp add: ranks)
    have "{b \<in> ?S. num_less (width bps b) (width bps a)} = set (take i keys)"
    proof (intro equalityI subsetI)
      fix b assume "b \<in> {b \<in> ?S. num_less (width bps b) (width bps a)}"
      then have b: "b \<in> ?S" and lt: "num_less (width bps b) (width bps a)" by simp_all
      from pos [OF b] obtain j where j: "j < length keys" "keys ! j = b" by blast
      then have rb: "map_of (getOrderMap c bps) b = Some j" by (simp add: ranks)
      have "j < i" using strict [OF lt rb ra] .
      then show "b \<in> set (take i keys)"
        using j i by (auto simp add: in_set_conv_nth)
    next
      fix b assume "b \<in> set (take i keys)"
      then obtain j where j: "j < i" "keys ! j = b"
        using i by (auto simp add: in_set_conv_nth)
      then have jl: "j < length keys" using i by simp
      then have b: "b \<in> ?S" using j set_keys nth_mem by blast
      from sorted_wrt_nth_less [OF sorted j(1) i(1)]
      have nlt: "\<not> num_less (width bps a) (width bps b)" using i j by (simp add: le_def)
      have "a \<noteq> b" using j i jl dist by (auto simp add: nth_eq_iff_index_eq)
      with inj a b have "width bps a \<noteq> width bps b" by (auto dest: inj_onD)
      with nlt num_less_linear [of "width bps b" "width bps a"] wd [OF a] wd [OF b]
      have "num_less (width bps b) (width bps a)" by auto
      with b show "b \<in> {b \<in> ?S. num_less (width bps b) (width bps a)}" by simp
    qed
    moreover have "card (set (take i keys)) = i"
      using dist i by (simp add: distinct_card)
    ultimately show "map_of (getOrderMap c bps) a
        = Some (card {b \<in> ?S. num_less (width bps b) (width bps a)})"
      using ra by simp
  qed
  from c1 c2 c3 c4 show ?thesis by (intro conjI)
qed

theorem getOrderMap_numeric_ranks_witness:
  "distinct (map fst [(''a'', Number (Fin 100)), (''b'', Number (Fin 200)),
                      (''c'', Number (Fin 300))]) \<and>
   typeof (Number (Fin 100)) = ''number'' \<and> Number (Fin 100) \<noteq> Number NaN \<and>
   typeof (Number (Fin 200)) = ''number'' \<and> Number (Fin 200) \<noteq> Number NaN \<and>
   typeof (Number (Fin 300)) = ''number'' \<and> Number (Fin 300) \<noteq> Number NaN \<and>
   getOrderMap example_conversions
     [(''a'', Number (Fin 100)), (''b'', Number (Fin 200)), (''c'', Number (Fin 300))]
     = [(''a'', 0), (''b'', 1), (''c'', 2)] \<and>
   getOrderMap example_conversions
     [(''c'', Number (Fin 300)), (''a'', Number (Fin 100)), (''b'', Number (Fin 200))]
     = [(''c'', 2), (''a'', 0), (''b'', 1)]"
  using getOrderMap_numeric_ranks
          [of "[(''a'', Number (Fin 100)), (''b'', Number (Fin 200)), (''c'', Number (Fin 300))]"
              example_conversions]
  by (simp add: evaluation_defs)

section \<open>Properties of the object spread, of the state literal and of the factory\<close>

lemma map_of_spread: "map_of (spread target source) = map_of target ++ map_of (rev source)"
  unfolding spread_def
proof (induction source arbitrary: target)
  case Nil
  then show ?case by simp
next
  case (Cons p source)
  obtain k v where p: "p = (k, v)" by (cases p)
  show ?case
    by (simp add: p Cons.IH map_of_assign map_add_def fun_eq_iff split: option.splits)
qed

lemma responsiveState_shape:
  assumes "responsiveState env h state act = (base, h3)"
  shows "map fst base = [''_responsiveState'', ''lessThan'', ''greaterThan'', ''is'',
                         ''mediaType'', ''orientation'', ''breakpoints'']"
    and "get base ''breakpoints'' = Ref (breakpoints env)"
    and "length h3 = length h + 3"
    and "take (length h) h3 = h"
  using assms
  by (auto simp add: responsiveState_def Let_def alloc_def get_def split: prod.splits)

text \<open>What the factory puts into the closure, and the heap it leaves.\<close>

lemma factory_result:
  assumes "createResponsiveStateReducer m h arg opts = (env, h')"
  shows "extraFields env = (case opt_extraFields opts of None \<Rightarrow> (\<lambda>h s. []) | Some f \<Rightarrow> f)"
    and "breakpoints env = (case arg of None \<Rightarrow> defaultBreakpoints m | Some r \<Rightarrow> r)"
    and "infinity env = (case opt_infinity opts of None \<Rightarrow> ''infinity'' | Some s \<Rightarrow> s)"
    and "h' = h[breakpoints env := assign (infinity env) (Number PosInf) (h ! breakpoints env)]"
  using assms
  unfolding createResponsiveStateReducer_def Let_def defaultMediaType_def
  by auto

text \<open>A recalculation, step by step.\<close>

lemma reducer_recalculates:
  assumes "act_type act = CALCULATE_RESPONSIVE_STATE m \<or> typeof state = ''undefined''"
    and "responsiveState env h state act = (base, h3)"
  shows "reducer m env h state act =
           (Ref (Suc (length h3)),
            h3 @ [base, spread (spread [] base) (extraFields env (h3 @ [base]) (Ref (length h3)))])"
  using assms by (simp add: reducer_def alloc_def)

lemma spread_over_base:
  assumes "distinct (map fst base)" and "distinct (map fst extra)"
  shows "map_of (spread (spread [] base) extra) = map_of base ++ map_of extra"
  using assms by (simp add: map_of_spread map_of_rev_distinct)

section \<open>Extra fields\<close>

text \<open>
  C8. For a reducer that the factory built from the caller's options, a recalculation
  returns a new object that holds the properties of the base state overridden by those of
  the object that the caller's \<open>extraFields\<close> returns for that base state (no property when
  the option is absent): on every name both define, the extra field wins. With
  \<open>extraFields\<close> returning \<open>{mediaType: "override"}\<close> the state's mediaType is \<open>override\<close>
  where the base state has \<open>infinity\<close>.
\<close>

theorem extraFields_merge:
  assumes fac: "createResponsiveStateReducer m h arg opts = (env, h1)"
    and recalc: "act_type act = CALCULATE_RESPONSIVE_STATE m \<or> typeof state = ''undefined''"
    and rs: "responsiveState env h2 state act = (base, h3)"
    and extra: "extra = (case opt_extraFields opts of
                           None \<Rightarrow> []
                         | Some f \<Rightarrow> f (h3 @ [base]) (Ref (length h3)))"
    and dist: "distinct (map fst extra)"
  shows "fst (reducer m env h2 state act) = Ref (Suc (length h3)) \<and>
         length h2 < Suc (length h3) \<and>
         snd (reducer m env h2 state act) ! length h3 = base \<and>
         map_of (snd (reducer m env h2 state act) ! Suc (length h3))
           = map_of base ++ map_of extra"
proof -
  have d: "distinct (map fst base)"
    using responsiveState_shape(1) [OF rs] by simp
  have ex: "extraFields env (h3 @ [base]) (Ref (length h3)) = extra"
    using factory_result(1) [OF fac] extra by (simp split: option.splits)
  have len: "length h2 < Suc (length h3)"
    using responsiveState_shape(3) [OF rs] by simp
  from reducer_recalculates [OF recalc rs] spread_over_base [OF d dist] len
  show ?thesis by (simp add: ex nth_append)
qed

theorem extraFields_merge_witness:
  "state_field
     (first_state example_module
        (example_heap [(''small'', Number (Fin 768)), (''large'', Number (Fin 1200))]) 1
        \<lparr>opt_initialMediaType = None, opt_infinity = None,
           opt_extraFields = Some (\<lambda>h s. [(''mediaType'', String ''override'')])\<rparr>
        init_action)
     ''mediaType'' = String ''override'' \<and>
   get (fst (responsiveState
          (fst (createResponsiveStateReducer example_module
             (example_heap [(''small'', Number (Fin 768)), (''large'', Number (Fin 1200))])
             (Some 1)
             \<lparr>opt_initialMediaType = None, opt_infinity = None,
                opt_extraFields = Some (\<lambda>h s. [(''mediaType'', String ''override'')])\<rparr>))
          (example_heap [(''small'', Number (Fin 768)), (''large'', Number (Fin 1200)),
                         (''infinity'', Number PosInf)])
          Undefined init_action))
     ''mediaType'' = String ''infinity''"
  using extraFields_merge
    [of example_module
        "example_heap [(''small'', Number (Fin 768)), (''large'', Number (Fin 1200))]"
        "Some 1"
        "\<lparr>opt_initialMediaType = None, opt_infinity = None,
           opt_extraFields = Some (\<lambda>h s. [(''mediaType'', String ''override'')])\<rparr>"
        "fst (createResponsiveStateReducer example_module
             (example_heap [(''small'', Number (Fin 768)), (''large'', Number (Fin 1200))])
             (Some 1)
             \<lparr>opt_initialMediaType = None, opt_infinity = None,
                opt_extraFields = Some (\<lambda>h s. [(''mediaType'', String ''override'')])\<rparr>)"
        "example_heap [(''small'', Number (Fin 768)), (''large'', Number (Fin 1200)),
                       (''infinity'', Number PosInf)]"
        init_action Undefined
        "example_heap [(''small'', Number (Fin 768)), (''large'', Number (Fin 1200)),
                       (''infinity'', Number PosInf)]"
        "fst (responsiveState
          (fst (createResponsiveStateReducer example_module
             (example_heap [(''small'', Number (Fin 768)), (''large'', Number (Fin 1200))])
             (Some 1)
             \<lparr>opt_initialMediaType = None, opt_infinity = None,
                opt_extraFields = Some (\<lambda>h s. [(''mediaType'', String ''override'')])\<rparr>))
          (example_heap [(''small'', Number (Fin 768)), (''large'', Number (Fin 1200)),
                         (''infinity'', Number PosInf)])
          Undefined init_action)"
        "snd (responsiveState
          (fst (createResponsiveStateReducer example_module
             (example_heap [(''small'', Number (Fin 768)), (''large'', Number (Fin 1200))])
             (Some 1)
             \<lparr>opt_initialMediaType = None, opt_infinity = None,
                opt_extraFields = Some (\<lambda>h s. [(''mediaType'', String ''override'')])\<rparr>))
          (example_heap [(''small'', Number (Fin 768)), (''large'', Number (Fin 1200)),
                         (''infinity'', Number PosInf)])
          Undefined init_action)"
        "[(''mediaType'', String ''override'')]"]
  by (simp add: evaluation_defs)

section \<open>The factory writes to the caller's object\<close>

text \<open>
  C9, as the code has it. The state the reducer returns does not always hold the
  configuration in its \<open>breakpoints\<close> field: extra fields win over the base state, so with
  \<open>extraFields\<close> returning \<open>{breakpoints: "mine"}\<close> the field is the string \<open>mine\<close>, not the
  reference to the caller's object.
\<close>

theorem state_breakpoints_overridden_counterexample:
  "state_field
     (first_state example_module
        (example_heap [(''small'', Number (Fin 768)), (''large'', Number (Fin 1200))]) 1
        \<lparr>opt_initialMediaType = None, opt_infinity = None,
           opt_extraFields = Some (\<lambda>h s. [(''breakpoints'', String ''mine'')])\<rparr>
        init_action)
     ''breakpoints'' = String ''mine'' \<and>
   String ''mine'' \<noteq> Ref 1"
  by (simp add: evaluation_defs)

text \<open>
  C9, amended. Given a reference to a configuration object, the factory allocates nothing
  and writes to that object only: afterwards it holds positive infinity under the infinity
  key (the option \<open>infinity\<close>, by default the name \<open>infinity\<close>), its other properties are as
  before and in the same order, and every other object of the heap is as before. The
  reducer holds the same reference: the base state of every recalculation has it as its
  \<open>breakpoints\<close> field, and so has the state the reducer returns, unless the object that
  \<open>extraFields\<close> returns has a \<open>breakpoints\<close> property, whose value then takes its place. A
  recalculation writes to no object that exists.
\<close>

theorem factory_mutates_configuration:
  assumes r: "r < length h"
    and fac: "createResponsiveStateReducer m h (Some r) opts = (env, h')"
    and key: "key = (case opt_infinity opts of None \<Rightarrow> ''infinity'' | Some s \<Rightarrow> s)"
  shows "length h' = length h \<and>
         h' ! r = assign key (Number PosInf) (h ! r) \<and>
         get (h' ! r) key = Number PosInf \<and>
         (\<forall>k. k \<noteq> key \<longrightarrow> get (h' ! r) k = get (h ! r) k) \<and>
         filter (\<lambda>p. fst p \<noteq> key) (h' ! r) = filter (\<lambda>p. fst p \<noteq> key) (h ! r) \<and>
         (\<forall>a. a \<noteq> r \<longrightarrow> h' ! a = h ! a) \<and>
         breakpoints env = r \<and>
         (\<forall>h2 state act.
            get (fst (responsiveState env h2 state act)) ''breakpoints'' = Ref r \<and>
            take (length h2) (snd (responsiveState env h2 state act)) = h2) \<and>
         (\<forall>h2 state act base h3 extra.
            (act_type act = CALCULATE_RESPONSIVE_STATE m \<or> typeof state = ''undefined'') \<and>
            responsiveState env h2 state act = (base, h3) \<and>
            extra = (case opt_extraFields opts of
                       None \<Rightarrow> []
                     | Some f \<Rightarrow> f (h3 @ [base]) (Ref (length h3))) \<and>
            distinct (map fst extra) \<longrightarrow>
              field (snd (reducer m env h2 state act)) (fst (reducer m env h2 state act))
                ''breakpoints''
                = (case map_of extra ''breakpoints'' of None \<Rightarrow> Ref r | Some v \<Rightarrow> v) \<and>
              take (length h2) (snd (reducer m env h2 state act)) = h2)"
proof -
  note f = factory_result [OF fac]
  have bp: "breakpoints env = r" using f(2) by simp
  have inf: "infinity env = key" using f(3) key by simp
  have h': "h' = h[r := assign key (Number PosInf) (h ! r)]"
    using f(4) bp inf by simp
  have c1: "length h' = length h"
    by (simp add: h')
  have c2: "h' ! r = assign key (Number PosInf) (h ! r)"
    using r by (simp add: h')
  have c3: "get (h' ! r) key = Number PosInf"
    by (simp add: c2 get_assign)
  have c4: "\<forall>k. k \<noteq> key \<longrightarrow> get (h' ! r) k = get (h ! r) k"
    by (simp add: c2 get_assign)
  have c5: "filter (\<lambda>p. fst p \<noteq> key) (h' ! r) = filter (\<lambda>p. fst p \<noteq> key) (h ! r)"
    unfolding c2 by (rule filter_assign)
  have c6: "\<forall>a. a \<noteq> r \<longrightarrow> h' ! a = h ! a"
    by (simp add: h')
  have c7: "\<forall>h2 state act.
            get (fst (responsiveState env h2 state act)) ''breakpoints'' = Ref r \<and>
            take (length h2) (snd (responsiveState env h2 state act)) = h2"
  proof (intro allI)
    fix h2 state act
    obtain b h3 where rs: "responsiveState env h2 state act = (b, h3)"
      by (cases "responsiveState env h2 state act")
    from responsiveState_shape(2,4) [OF rs] bp rs
    show "get (fst (responsiveState env h2 state act)) ''breakpoints'' = Ref r \<and>
          take (length h2) (snd (responsiveState env h2 state act)) = h2"
      by simp
  qed
  have c8: "\<forall>h2 state act base h3 extra.
            (act_type act = CALCULATE_RESPONSIVE_STATE m \<or> typeof state = ''undefined'') \<and>
            responsiveState env h2 state act = (base, h3) \<and>
            extra = (case opt_extraFields opts of
                       None \<Rightarrow> []
                     | Some f \<Rightarrow> f (h3 @ [base]) (Ref (length h3))) \<and>
            distinct (map fst extra) \<longrightarrow>
              field (snd (reducer m env h2 state act)) (fst (reducer m env h2 state act))
                ''breakpoints''
                = (case map_of extra ''breakpoints'' of None \<Rightarrow> Ref r | Some v \<Rightarrow> v) \<and>
              take (length h2) (snd (reducer m env h2 state act)) = h2"
  proof (intro allI impI, elim conjE)
    fix h2 state base h3 extra and act :: action
    assume rc: "act_type act = CALCULATE_RESPONSIVE_STATE m \<or> typeof state = ''undefined''"
      and rs: "responsiveState env h2 state act = (base, h3)"
      and extra: "extra = (case opt_extraFields opts of
                             None \<Rightarrow> []
                           | Some f \<Rightarrow> f (h3 @ [base]) (Ref (length h3)))"
      and dist: "distinct (map fst extra)"
    have d: "distinct (map fst base)"
      using responsiveState_shape(1) [OF rs] by simp
    have ex: "extraFields env (h3 @ [base]) (Ref (length h3)) = extra"
      using f(1) extra by (simp split: option.splits)
    have gb: "map_of base ''breakpoints'' = Some (Ref r)"
      using responsiveState_shape(1,2) [OF rs] bp
      by (cases "map_of base ''breakpoints''")
         (simp_all add: get_def map_of_eq_None_iff image_set [symmetric] del: image_set)
    have g: "get (spread (spread [] base) extra) ''breakpoints''
               = (case map_of extra ''breakpoints'' of None \<Rightarrow> Ref r | Some v \<Rightarrow> v)"
      by (simp add: get_def spread_over_base [OF d dist] map_add_def gb split: option.splits)
    have t: "take (length h2) h3 = h2" and len: "length h2 \<le> length h3"
      using responsiveState_shape(3,4) [OF rs] by simp_all
    show "field (snd (reducer m env h2 state act)) (fst (reducer m env h2 state act))
                ''breakpoints''
                = (case map_of extra ''breakpoints'' of None \<Rightarrow> Ref r | Some v \<Rightarrow> v) \<and>
              take (length h2) (snd (reducer m env h2 state act)) = h2"
      using g t len by (simp add: reducer_recalculates [OF rc rs] ex field_def nth_append)
  qed
  from c1 c2 c3 c4 c5 c6 bp c7 c8 show ?thesis by (intro conjI)
qed

theorem factory_mutates_configuration_witness:
  "1 < length (example_heap [(''small'', Number (Fin 768)), (''large'', Number (Fin 1200))]) \<and>
   snd (createResponsiveStateReducer example_module
          (example_heap [(''small'', Number (Fin 768)), (''large'', Number (Fin 1200))])
          (Some 1) no_options)
     = example_heap [(''small'', Number (Fin 768)), (''large'', Number (Fin 1200)),
                     (''infinity'', Number PosInf)] \<and>
   state_field
     (first_state example_module
        (example_heap [(''small'', Number (Fin 768)), (''large'', Number (Fin 1200))]) 1
        no_options init_action)
     ''breakpoints'' = Ref 1 \<and>
   snd (first_state example_module
        (example_heap [(''small'', Number (Fin 768)), (''large'', Number (Fin 1200))]) 1
        no_options init_action) ! 1
     = [(''small'', Number (Fin 768)), (''large'', Number (Fin 1200)),
        (''infinity'', Number PosInf)] \<and>
   snd (createResponsiveStateReducer example_module
          (example_heap [(''small'', Number (Fin 768))]) (Some 1)
          \<lparr>opt_initialMediaType = None, opt_infinity = Some ''5'', opt_extraFields = None\<rparr>)
     = example_heap [(''5'', Number PosInf), (''small'', Number (Fin 768))]"
  using factory_mutates_configuration
    [of 1 "example_heap [(''small'', Number (Fin 768)), (''large'', Number (Fin 1200))]"
        example_module no_options
        "fst (createResponsiveStateReducer example_module
          (example_heap [(''small'', Number (Fin 768)), (''large'', Number (Fin 1200))])
          (Some 1) no_options)"
        "example_heap [(''small'', Number (Fin 768)), (''large'', Number (Fin 1200)),
                     (''infinity'', Number PosInf)]"
        "''infinity''"]
  by (simp add: evaluation_defs)

end
